theory Spec2Isabelle
  imports Complex_Main "HOL-Library.DAList"
begin

section \<open>Data model\<close>

text \<open>
  The position accumulator of \<^verbatim>\<open>trade/accumulator.py\<close> and the commission proration
  of \<^verbatim>\<open>trade/plugins/prorate.py\<close>.

  Numbers are modelled as \<^typ>\<open>real\<close>: quantities, prices and results are the
  "signed real numbers" of the data model, and every division is the true division.
  A Python dict with string keys is an association list with distinct keys that keeps
  the insertion order (\<^typ>\<open>(string, real) alist\<close>): storing under a present key
  replaces the value in place, storing under an absent key appends, and iteration
  follows the list. In the functions of the first sections dicts are passed by value: a
  call is given its own \<^verbatim>\<open>results\<close> dict, and what the call stores in it is what the
  log entry holds. The code keeps the dict of the caller itself in the log, so whether
  two log entries hold one and the same dict matters to what the log reads; the section
  on results dicts as objects models that with a store of objects, and the property of
  the log is settled there.
\<close>

type_synonym dict = "(string, real) alist"

datatype error = KeyError string | ZeroDivisionError

text \<open>\<^verbatim>\<open>key in d\<close>, \<^verbatim>\<open>d[key]\<close>, \<^verbatim>\<open>d[key] = value\<close> and \<^verbatim>\<open>d.items()\<close>.\<close>

definition contains :: "dict \<Rightarrow> string \<Rightarrow> bool" where
  "contains d key = (DAList.lookup d key \<noteq> None)"

definition getitem :: "dict \<Rightarrow> string \<Rightarrow> error + real" where
  "getitem d key = (case DAList.lookup d key of None \<Rightarrow> Inl (KeyError key) | Some v \<Rightarrow> Inr v)"

definition setitem :: "dict \<Rightarrow> string \<Rightarrow> real \<Rightarrow> dict" where
  "setitem d key v = DAList.update key v d"

definition items :: "dict \<Rightarrow> (string \<times> real) list" where
  "items d = DAList.impl_of d"

text \<open>\<^verbatim>\<open>d.get(key, default)\<close>, used to state what a call adds to a result.\<close>

definition dict_get :: "dict \<Rightarrow> string \<Rightarrow> real \<Rightarrow> real" where
  "dict_get d key dflt = (case DAList.lookup d key of None \<Rightarrow> dflt | Some v \<Rightarrow> v)"

text \<open>The dict literal \<^verbatim>\<open>{'trades': 0}\<close>.\<close>

definition trades0 :: dict where
  "trades0 = setitem DAList.empty ''trades'' 0"

text \<open>
  One entry of a date's \<^verbatim>\<open>operations\<close> list, and the record the log keeps for a
  date. Each of the keys \<^verbatim>\<open>position\<close>, \<^verbatim>\<open>operations\<close> and \<^verbatim>\<open>events\<close> may be
  absent from that record, hence the options.
\<close>

record operation_entry =
  entry_quantity :: real
  entry_price :: real
  entry_results :: dict

record day_record =
  position :: "(real \<times> real) option"
  operations :: "operation_entry list option"
  events :: "string list option"

text \<open>
  A portfolio event: its name, its date and its \<^verbatim>\<open>update_portfolio\<close>, which is given
  the quantity, the price and the results of the accumulator and returns the new
  quantity and price; the results it was given are mutable, so the model returns them too.
\<close>

record event =
  name :: string
  date :: "string option"
  update_portfolio :: "real \<Rightarrow> real \<Rightarrow> dict \<Rightarrow> (real \<times> real) \<times> dict"

text \<open>
  The accumulator. The date is \<^verbatim>\<open>None\<close> or a string; the log is a dict keyed by
  the date (which may be \<^verbatim>\<open>None\<close>) and is never iterated, so it is a map.
\<close>

record accumulator =
  asset :: string
  date :: "string option"
  quantity :: real
  price :: real
  results :: dict
  logging :: bool
  log' :: "string option \<rightharpoonup> day_record"

record initial_status =
  status_date :: "string option"
  status_quantity :: real
  status_price :: real
  status_results :: dict

section \<open>Helpers of \<^verbatim>\<open>trade/utils.py\<close>\<close>

text \<open>
  Modelled from the spec: \<^verbatim>\<open>same_sign\<close> of \<^verbatim>\<open>trade/utils.py\<close>, which is imported by
  the accumulator and is not part of the sources at hand. The specification of the
  accumulation algorithm says that two numbers have the same sign, "a zero value [being]
  considered same-sign-compatible with anything".
\<close>

definition same_sign :: "real \<Rightarrow> real \<Rightarrow> bool" where
  "same_sign x y = (x = 0 \<or> y = 0 \<or> (0 < x) = (0 < y))"

text \<open>
  Modelled from the spec: \<^verbatim>\<open>average_price\<close> of \<^verbatim>\<open>trade/utils.py\<close>, also absent. The
  specification gives the weighted average
  \<^verbatim>\<open>(current_quantity*current_price + quantity*price) / new_quantity\<close>, where
  \<^verbatim>\<open>new_quantity\<close> is the sum of the two quantities; a Python division by zero raises.
\<close>

definition average_price :: "real \<Rightarrow> real \<Rightarrow> real \<Rightarrow> real \<Rightarrow> error + real" where
  "average_price quantity_1 price_1 quantity_2 price_2 =
     (if quantity_1 + quantity_2 = 0 then Inl ZeroDivisionError
      else Inr ((quantity_1 * price_1 + quantity_2 * price_2) / (quantity_1 + quantity_2)))"

section \<open>The accumulator\<close>

text \<open>\<^verbatim>\<open>Accumulator.__init__\<close>: a seeded accumulator takes the initial status verbatim.\<close>

definition init :: "string \<Rightarrow> initial_status option \<Rightarrow> bool \<Rightarrow> accumulator" where
  "init asset_arg status logging_arg =
     (case status of
        Some st \<Rightarrow>
          \<lparr>asset = asset_arg, date = status_date st, quantity = status_quantity st,
           price = status_price st, results = status_results st,
           logging = logging_arg, log' = Map.empty\<rparr>
      | None \<Rightarrow>
          \<lparr>asset = asset_arg, date = None, quantity = 0, price = 0, results = trades0,
           logging = logging_arg, log' = Map.empty\<rparr>)"

text \<open>
  \<^verbatim>\<open>Accumulator.log_operation\<close>: a new date gets \<^verbatim>\<open>{'operations': []}\<close>; the position
  of the date is overwritten; the entry is appended to the date's \<^verbatim>\<open>operations\<close>, which
  raises \<^verbatim>\<open>KeyError\<close> when the date's record has no such list. The entry holds the
  dict of the call as a value here; \<open>log_operation_obj\<close> below holds it as the object
  the code stores.
\<close>

definition log_operation ::
  "accumulator \<Rightarrow> real \<Rightarrow> real \<Rightarrow> string option \<Rightarrow> dict \<Rightarrow> error + accumulator" where
  "log_operation self qty prc dt res =
     (let day = (case log' self dt of
                   None \<Rightarrow> \<lparr>position = None, operations = Some [], events = None\<rparr>
                 | Some existing \<Rightarrow> existing);
          day = day\<lparr>position := Some (quantity self, price self)\<rparr>
      in case operations day of
           None \<Rightarrow> Inl (KeyError ''operations'')
         | Some ops \<Rightarrow>
             Inr (self\<lparr>log' := (log' self)(dt \<mapsto>
                    day\<lparr>operations := Some (ops @
                      [\<lparr>entry_quantity = qty, entry_price = prc, entry_results = res\<rparr>])\<rparr>)\<rparr>))"

text \<open>
  The loop that ends \<^verbatim>\<open>accumulate\<close>:
  \<^verbatim>\<open>for key, value in results.items(): if key not in self.results: self.results[key] = 0;
  self.results[key] += value\<close>.
\<close>

fun merge_results :: "dict \<Rightarrow> (string \<times> real) list \<Rightarrow> error + dict" where
  "merge_results acc [] = Inr acc"
| "merge_results acc ((key, v) # rest) =
     (let acc = (if \<not> contains acc key then setitem acc key 0 else acc)
      in case getitem acc key of
           Inl e \<Rightarrow> Inl e
         | Inr old \<Rightarrow> merge_results (setitem acc key (old + v)) rest)"

text \<open>
  \<^verbatim>\<open>Accumulator.accumulate\<close>. The three branches compute the new price and, in the
  second one, add the realized result to the \<^verbatim>\<open>results\<close> of the call; then quantity and
  price are committed, the results are merged and the operation is logged. Nothing
  assigns the date of the accumulator.
\<close>

definition accumulate ::
  "accumulator \<Rightarrow> real \<Rightarrow> real \<Rightarrow> string option \<Rightarrow> dict option \<Rightarrow> error + accumulator" where
  "accumulate self qty prc dt res_arg =
     (let new_quantity = quantity self + qty;
          res = (case res_arg of None \<Rightarrow> trades0 | Some r \<Rightarrow> r);
          branch =
            (if same_sign (quantity self) qty then
               (if new_quantity \<noteq> 0 then
                  (case average_price (quantity self) (price self) qty prc of
                     Inl e \<Rightarrow> Inl e
                   | Inr new_price \<Rightarrow> Inr (new_price, res))
                else Inr (0, res))
             else if quantity self \<noteq> 0 then
               (let new_price =
                      (if same_sign (quantity self) new_quantity then price self else prc)
                in case getitem res ''trades'' of
                     Inl e \<Rightarrow> Inl e
                   | Inr t \<Rightarrow>
                       Inr (new_price,
                            setitem res ''trades''
                              (t + (\<bar>qty\<bar> * prc - \<bar>qty\<bar> * price self))))
             else Inr (prc, res))
      in case branch of
           Inl e \<Rightarrow> Inl e
         | Inr (new_price, res) \<Rightarrow>
             (let self = self\<lparr>quantity := new_quantity,
                             price := (if new_quantity \<noteq> 0 then new_price else 0)\<rparr>
              in case merge_results (results self) (items res) of
                   Inl e \<Rightarrow> Inl e
                 | Inr merged \<Rightarrow>
                     (let self = self\<lparr>results := merged\<rparr>
                      in if logging self then log_operation self qty prc dt res
                         else Inr self)))"

text \<open>
  \<^verbatim>\<open>Accumulator.log_event\<close>: a new date gets \<^verbatim>\<open>{'events': []}\<close>, a date known
  from an operation gets an empty \<^verbatim>\<open>events\<close> list beside its operations; the position is
  overwritten and the name of the event appended.
\<close>

definition log_event :: "accumulator \<Rightarrow> event \<Rightarrow> accumulator" where
  "log_event self ev =
     (let day = (case log' self (event.date ev) of
                   None \<Rightarrow> \<lparr>position = None, operations = None, events = Some []\<rparr>
                 | Some existing \<Rightarrow>
                     (if events existing = None then existing\<lparr>events := Some []\<rparr>
                      else existing));
          day = day\<lparr>position := Some (quantity self, price self)\<rparr>;
          evs = (case events day of None \<Rightarrow> [] | Some evs \<Rightarrow> evs)
      in self\<lparr>log' := (log' self)(event.date ev \<mapsto>
                 day\<lparr>events := Some (evs @ [name ev])\<rparr>)\<rparr>)"

text \<open>\<^verbatim>\<open>Accumulator.accumulate_event\<close>: the event decides the new quantity and price.\<close>

definition accumulate_event :: "accumulator \<Rightarrow> event \<Rightarrow> accumulator" where
  "accumulate_event self ev =
     (case update_portfolio ev (quantity self) (price self) (results self) of
        ((new_quantity, new_price), res) \<Rightarrow>
          (let self = self\<lparr>quantity := new_quantity, price := new_price, results := res\<rparr>
           in if logging self then log_event self ev else self))"

text \<open>
  An event of a subclass of \<^verbatim>\<open>Event\<close> (the base class is abstract) whose
  \<^verbatim>\<open>update_portfolio\<close> returns the quantity and the price it was given, as the body of
  the abstract method does, and leaves the results alone.
\<close>

definition plain_event :: "string option \<Rightarrow> string \<Rightarrow> event" where
  "plain_event date_arg name_arg =
     \<lparr>name = name_arg, date = date_arg,
      update_portfolio = (\<lambda>q p res. ((q, p), res))\<rparr>"

text \<open>A sequence of calls stops at the first exception.\<close>

type_synonym call = "real \<times> real \<times> string option \<times> dict option"

fun accumulate_all :: "accumulator \<Rightarrow> call list \<Rightarrow> error + accumulator" where
  "accumulate_all self [] = Inr self"
| "accumulate_all self ((qty, prc, dt, res_arg) # rest) =
     (case accumulate self qty prc dt res_arg of
        Inl e \<Rightarrow> Inl e
      | Inr self \<Rightarrow> accumulate_all self rest)"

text \<open>
  The steps of \<^verbatim>\<open>accumulate\<close>, named for the proofs: the default of the results
  argument, the three branches that give the new price and the results of the call, and
  the commit of quantity and price. \<open>accumulate_steps\<close> below shows that \<open>accumulate\<close>
  is their composition.
\<close>

definition results_arg :: "dict option \<Rightarrow> dict" where
  "results_arg res_arg = (case res_arg of None \<Rightarrow> trades0 | Some r \<Rightarrow> r)"

definition new_price_step ::
  "accumulator \<Rightarrow> real \<Rightarrow> real \<Rightarrow> dict \<Rightarrow> error + real \<times> dict" where
  "new_price_step self qty prc res =
     (if same_sign (quantity self) qty then
        (if quantity self + qty \<noteq> 0 then
           (case average_price (quantity self) (price self) qty prc of
              Inl e \<Rightarrow> Inl e
            | Inr new_price \<Rightarrow> Inr (new_price, res))
         else Inr (0, res))
      else if quantity self \<noteq> 0 then
        (case getitem res ''trades'' of
           Inl e \<Rightarrow> Inl e
         | Inr t \<Rightarrow>
             Inr (if same_sign (quantity self) (quantity self + qty) then price self else prc,
                  setitem res ''trades'' (t + (\<bar>qty\<bar> * prc - \<bar>qty\<bar> * price self))))
      else Inr (prc, res))"

definition commit_step :: "accumulator \<Rightarrow> real \<Rightarrow> real \<Rightarrow> dict \<Rightarrow> accumulator" where
  "commit_step self qty new_price merged =
     self\<lparr>quantity := quantity self + qty,
          price := (if quantity self + qty \<noteq> 0 then new_price else 0),
          results := merged\<rparr>"

section \<open>Commission proration\<close>

text \<open>
  What \<^verbatim>\<open>prorate_commissions_by_position\<close> reads of a container and of an operation
  (or position): the volume and the commissions.
\<close>

record container =
  volume :: real
  commissions :: dict

record operation =
  volume :: real
  commissions :: dict

text \<open>True division, which raises on a zero divisor.\<close>

definition truediv :: "real \<Rightarrow> real \<Rightarrow> error + real" where
  "truediv a b = (if b = 0 then Inl ZeroDivisionError else Inr (a / b))"

text \<open>
  \<^verbatim>\<open>prorate_commissions_by_position\<close>: when both volumes are nonzero, every commission
  of the container is stored in the operation, scaled by the percentage of the volume.
\<close>

definition prorate_commissions_by_position ::
  "container \<Rightarrow> operation \<Rightarrow> error + operation" where
  "prorate_commissions_by_position cont op =
     (if operation.volume op \<noteq> 0 \<and> container.volume cont \<noteq> 0 then
        (case truediv (operation.volume op) (container.volume cont) of
           Inl e \<Rightarrow> Inl e
         | Inr ratio \<Rightarrow>
             (let percent = ratio * 100
              in Inr (op\<lparr>operation.commissions :=
                        fold (\<lambda>(key, v) c. setitem c key (v * percent / 100))
                          (items (container.commissions cont))
                          (operation.commissions op)\<rparr>)))
      else Inr op)"

section \<open>Notions used to state the properties\<close>

text \<open>
  The log of the accumulator can take an operation on a date when the accumulator does
  not log, or the date is new, or the record of the date has an \<^verbatim>\<open>operations\<close> list.
\<close>

definition can_log :: "accumulator \<Rightarrow> string option \<Rightarrow> bool" where
  "can_log self dt =
     (\<not> logging self \<or>
      (case log' self dt of None \<Rightarrow> True | Some day \<Rightarrow> operations day \<noteq> None))"

text \<open>The operations the log holds for a date, none when the date or the list is absent.\<close>

definition operations_on :: "accumulator \<Rightarrow> string option \<Rightarrow> operation_entry list" where
  "operations_on self dt =
     (case log' self dt of
        None \<Rightarrow> []
      | Some day \<Rightarrow> (case operations day of None \<Rightarrow> [] | Some ops \<Rightarrow> ops))"

text \<open>
  The \<^verbatim>\<open>results\<close> dict of a call as the call leaves it and logs it: the dict given (or
  the default), with the realized result added under \<^verbatim>\<open>trades\<close> by the branch of a
  trade that opposes a nonzero position.
\<close>

definition logged_results :: "accumulator \<Rightarrow> real \<Rightarrow> real \<Rightarrow> dict option \<Rightarrow> dict" where
  "logged_results self qty prc res_arg =
     (if same_sign (quantity self) qty \<or> quantity self = 0 then results_arg res_arg
      else setitem (results_arg res_arg) ''trades''
             (dict_get (results_arg res_arg) ''trades'' 0 +
              (\<bar>qty\<bar> * prc - \<bar>qty\<bar> * price self)))"

text \<open>A logging accumulator seeded long: 100 units at price 10, no result yet.\<close>

definition long_100_at_10 :: accumulator where
  "long_100_at_10 =
     init ''ASSET''
       (Some \<lparr>status_date = Some ''2020-01-01'', status_quantity = 100, status_price = 10,
              status_results = trades0\<rparr>) True"

text \<open>An accumulator seeded with a position and an empty results dict.\<close>

definition seeded_without_trades :: accumulator where
  "seeded_without_trades =
     init ''ASSET''
       (Some \<lparr>status_date = Some ''2020-01-01'', status_quantity = 100, status_price = 10,
              status_results = DAList.empty\<rparr>) False"

text \<open>The end-to-end scenario: buy 10 units at 100, then sell them at 110.\<close>

definition buy_then_sell :: "call list" where
  "buy_then_sell =
     [(10, 100, Some ''2020-01-01'', None), (- 10, 110, Some ''2020-01-02'', None)]"

text \<open>A container with two commissions, and an operation of a given volume.\<close>

definition the_container :: container where
  "the_container =
     \<lparr>container.volume = 1000,
      container.commissions = setitem (setitem DAList.empty ''brokerage'' 20) ''tax'' 5\<rparr>"

definition an_operation :: "real \<Rightarrow> operation" where
  "an_operation v = \<lparr>operation.volume = v, operation.commissions = DAList.empty\<rparr>"

section \<open>Results dicts as objects\<close>

text \<open>
  \<^verbatim>\<open>log_operation\<close> stores the \<^verbatim>\<open>results\<close> dict of the call in the log entry as the
  object it is, and \<^verbatim>\<open>accumulate\<close> updates that object in place
  (\<^verbatim>\<open>results['trades'] += ...\<close>); the accumulator's own \<^verbatim>\<open>results\<close> is an object too,
  the one of the initial status when seeded. Here dicts live in a store: a reference is
  an address, the store gives the dict at each address and the next free address, and a
  dict literal allocates.
\<close>

type_synonym ref = nat

record heap =
  objects :: "ref \<Rightarrow> dict"
  fresh :: ref

definition alloc :: "heap \<Rightarrow> dict \<Rightarrow> ref \<times> heap" where
  "alloc h d = (fresh h, h\<lparr>objects := (objects h)(fresh h := d), fresh := Suc (fresh h)\<rparr>)"

text \<open>
  The log entry, the record of a date, the accumulator and the initial status, holding
  references where the code holds dict objects.
\<close>

record entry_obj =
  obj_entry_quantity :: real
  obj_entry_price :: real
  obj_entry_results :: ref

record day_obj =
  obj_position :: "(real \<times> real) option"
  obj_operations :: "entry_obj list option"
  obj_events :: "string list option"

record accumulator_obj =
  obj_asset :: string
  obj_date :: "string option"
  obj_quantity :: real
  obj_price :: real
  obj_results :: ref
  obj_logging :: bool
  obj_log :: "string option \<rightharpoonup> day_obj"

record initial_status_obj =
  obj_status_date :: "string option"
  obj_status_quantity :: real
  obj_status_price :: real
  obj_status_results :: ref

text \<open>
  \<^verbatim>\<open>Accumulator.__init__\<close>: the results of the initial status are taken as the object
  they are; without a status the literal \<^verbatim>\<open>{'trades': 0}\<close> is a new object.
\<close>

definition init_obj ::
  "heap \<Rightarrow> string \<Rightarrow> initial_status_obj option \<Rightarrow> bool \<Rightarrow> accumulator_obj \<times> heap" where
  "init_obj h asset_arg status logging_arg =
     (case status of
        Some st \<Rightarrow>
          (\<lparr>obj_asset = asset_arg, obj_date = obj_status_date st,
            obj_quantity = obj_status_quantity st, obj_price = obj_status_price st,
            obj_results = obj_status_results st,
            obj_logging = logging_arg, obj_log = Map.empty\<rparr>, h)
      | None \<Rightarrow>
          (case alloc h trades0 of
             (r, h) \<Rightarrow>
               (\<lparr>obj_asset = asset_arg, obj_date = None, obj_quantity = 0, obj_price = 0,
                 obj_results = r, obj_logging = logging_arg, obj_log = Map.empty\<rparr>, h)))"

text \<open>
  \<^verbatim>\<open>Accumulator.log_operation\<close>: as above, the entry holding the reference to the
  \<^verbatim>\<open>results\<close> of the call.
\<close>

definition log_operation_obj ::
  "accumulator_obj \<Rightarrow> real \<Rightarrow> real \<Rightarrow> string option \<Rightarrow> ref \<Rightarrow> error + accumulator_obj" where
  "log_operation_obj self qty prc dt res =
     (let day = (case obj_log self dt of
                   None \<Rightarrow> \<lparr>obj_position = None, obj_operations = Some [], obj_events = None\<rparr>
                 | Some existing \<Rightarrow> existing);
          day = day\<lparr>obj_position := Some (obj_quantity self, obj_price self)\<rparr>
      in case obj_operations day of
           None \<Rightarrow> Inl (KeyError ''operations'')
         | Some ops \<Rightarrow>
             Inr (self\<lparr>obj_log := (obj_log self)(dt \<mapsto>
                    day\<lparr>obj_operations := Some (ops @
                      [\<lparr>obj_entry_quantity = qty, obj_entry_price = prc,
                        obj_entry_results = res\<rparr>])\<rparr>)\<rparr>))"

text \<open>
  \<^verbatim>\<open>Accumulator.accumulate\<close>: the default \<^verbatim>\<open>{'trades': 0}\<close> is a new object; the
  second branch updates the object of the call in place; the merge loop reads the items
  of the object of the call and updates the accumulator's own object (each key is read
  once, before its own update, so the loop over the items as they stand at its start is
  the loop of the code also when the two are one object); the log entry takes the
  reference.
\<close>

definition accumulate_obj ::
  "heap \<Rightarrow> accumulator_obj \<Rightarrow> real \<Rightarrow> real \<Rightarrow> string option \<Rightarrow> ref option \<Rightarrow>
   error + accumulator_obj \<times> heap" where
  "accumulate_obj h self qty prc dt res_arg =
     (let new_quantity = obj_quantity self + qty in
      case (case res_arg of None \<Rightarrow> alloc h trades0 | Some r \<Rightarrow> (r, h)) of
        (res, h) \<Rightarrow>
      (let branch =
            (if same_sign (obj_quantity self) qty then
               (if new_quantity \<noteq> 0 then
                  (case average_price (obj_quantity self) (obj_price self) qty prc of
                     Inl e \<Rightarrow> Inl e
                   | Inr new_price \<Rightarrow> Inr (new_price, h))
                else Inr (0, h))
             else if obj_quantity self \<noteq> 0 then
               (let new_price =
                      (if same_sign (obj_quantity self) new_quantity then obj_price self
                       else prc)
                in case getitem (objects h res) ''trades'' of
                     Inl e \<Rightarrow> Inl e
                   | Inr t \<Rightarrow>
                       Inr (new_price,
                            h\<lparr>objects := (objects h)(res :=
                              setitem (objects h res) ''trades''
                                (t + (\<bar>qty\<bar> * prc - \<bar>qty\<bar> * obj_price self)))\<rparr>))
             else Inr (prc, h))
      in case branch of
           Inl e \<Rightarrow> Inl e
         | Inr (new_price, h) \<Rightarrow>
             (let self = self\<lparr>obj_quantity := new_quantity,
                             obj_price := (if new_quantity \<noteq> 0 then new_price else 0)\<rparr>
              in case merge_results (objects h (obj_results self)) (items (objects h res)) of
                   Inl e \<Rightarrow> Inl e
                 | Inr merged \<Rightarrow>
                     (let h = h\<lparr>objects := (objects h)(obj_results self := merged)\<rparr>
                      in if obj_logging self then
                           (case log_operation_obj self qty prc dt res of
                              Inl e \<Rightarrow> Inl e
                            | Inr self \<Rightarrow> Inr (self, h))
                         else Inr (self, h)))))"

type_synonym call_obj = "real \<times> real \<times> string option \<times> ref option"

fun accumulate_all_obj ::
  "heap \<Rightarrow> accumulator_obj \<Rightarrow> call_obj list \<Rightarrow> error + accumulator_obj \<times> heap" where
  "accumulate_all_obj h self [] = Inr (self, h)"
| "accumulate_all_obj h self ((qty, prc, dt, res_arg) # rest) =
     (case accumulate_obj h self qty prc dt res_arg of
        Inl e \<Rightarrow> Inl e
      | Inr (self, h) \<Rightarrow> accumulate_all_obj h self rest)"

text \<open>
  Notions for the property of the log: the operations the log holds for a date, the
  reference of the \<^verbatim>\<open>results\<close> of a call (the argument, or the address the default is
  allocated at), and what the entries of a date read under \<^verbatim>\<open>trades\<close> after a run.
\<close>

definition operations_on_obj :: "accumulator_obj \<Rightarrow> string option \<Rightarrow> entry_obj list" where
  "operations_on_obj self dt =
     (case obj_log self dt of
        None \<Rightarrow> []
      | Some day \<Rightarrow> (case obj_operations day of None \<Rightarrow> [] | Some ops \<Rightarrow> ops))"

definition results_ref :: "heap \<Rightarrow> ref option \<Rightarrow> ref" where
  "results_ref h res_arg = (case res_arg of None \<Rightarrow> fresh h | Some r \<Rightarrow> r)"

definition trades_logged ::
  "string option \<Rightarrow> error + accumulator_obj \<times> heap \<Rightarrow> (error + real) list" where
  "trades_logged dt outcome =
     (case outcome of
        Inl e \<Rightarrow> []
      | Inr (self, h) \<Rightarrow>
          map (\<lambda>entry. getitem (objects h (obj_entry_results entry)) ''trades'')
            (operations_on_obj self dt))"

text \<open>
  A store with two dicts \<^verbatim>\<open>{'trades': 0}\<close>, at the addresses 0 and 1, and a logging
  accumulator seeded long, 100 units at price 10, whose own results are the dict at 0.
\<close>

definition no_objects :: heap where
  "no_objects = \<lparr>objects = (\<lambda>r. DAList.empty), fresh = 0\<rparr>"

definition two_dicts :: heap where
  "two_dicts = snd (alloc (snd (alloc no_objects trades0)) trades0)"

definition long_100_at_10_obj :: accumulator_obj where
  "long_100_at_10_obj =
     fst (init_obj two_dicts ''ASSET''
       (Some \<lparr>obj_status_date = Some ''2020-01-01'', obj_status_quantity = 100,
              obj_status_price = 10, obj_status_results = 0\<rparr>) True)"

text \<open>
  The steps of \<^verbatim>\<open>accumulate\<close> in this model, named for the proofs.
\<close>

definition branch_obj ::
  "heap \<Rightarrow> accumulator_obj \<Rightarrow> real \<Rightarrow> real \<Rightarrow> ref \<Rightarrow> error + real \<times> heap" where
  "branch_obj h self qty prc res =
     (if same_sign (obj_quantity self) qty then
        (if obj_quantity self + qty \<noteq> 0 then
           (case average_price (obj_quantity self) (obj_price self) qty prc of
              Inl e \<Rightarrow> Inl e
            | Inr new_price \<Rightarrow> Inr (new_price, h))
         else Inr (0, h))
      else if obj_quantity self \<noteq> 0 then
        (case getitem (objects h res) ''trades'' of
           Inl e \<Rightarrow> Inl e
         | Inr t \<Rightarrow>
             Inr (if same_sign (obj_quantity self) (obj_quantity self + qty) then obj_price self
                  else prc,
                  h\<lparr>objects := (objects h)(res :=
                    setitem (objects h res) ''trades''
                      (t + (\<bar>qty\<bar> * prc - \<bar>qty\<bar> * obj_price self)))\<rparr>))
      else Inr (prc, h))"

definition commit_obj :: "accumulator_obj \<Rightarrow> real \<Rightarrow> real \<Rightarrow> accumulator_obj" where
  "commit_obj self qty new_price =
     self\<lparr>obj_quantity := obj_quantity self + qty,
          obj_price := (if obj_quantity self + qty \<noteq> 0 then new_price else 0)\<rparr>"

text \<open>
  What the model with values sees of a state of the model with objects: every reference
  read through the store.
\<close>

definition entry_value :: "heap \<Rightarrow> entry_obj \<Rightarrow> operation_entry" where
  "entry_value h entry =
     \<lparr>entry_quantity = obj_entry_quantity entry, entry_price = obj_entry_price entry,
      entry_results = objects h (obj_entry_results entry)\<rparr>"

definition day_value :: "heap \<Rightarrow> day_obj \<Rightarrow> day_record" where
  "day_value h day =
     \<lparr>position = obj_position day,
      operations = map_option (map (entry_value h)) (obj_operations day),
      events = obj_events day\<rparr>"

definition accumulator_value :: "heap \<Rightarrow> accumulator_obj \<Rightarrow> accumulator" where
  "accumulator_value h self =
     \<lparr>asset = obj_asset self, date = obj_date self, quantity = obj_quantity self,
      price = obj_price self, results = objects h (obj_results self),
      logging = obj_logging self,
      log' = (\<lambda>dt. map_option (day_value h) (obj_log self dt))\<rparr>"

text \<open>
  The outcome of a call as far as the position goes: the error, or the quantity, the
  price and the results.
\<close>

definition position_of :: "error + accumulator \<Rightarrow> error + real \<times> real \<times> dict" where
  "position_of outcome =
     (case outcome of Inl e \<Rightarrow> Inl e | Inr s \<Rightarrow> Inr (quantity s, price s, results s))"

definition position_of_obj :: "error + accumulator_obj \<times> heap \<Rightarrow> error + real \<times> real \<times> dict" where
  "position_of_obj outcome =
     (case outcome of
        Inl e \<Rightarrow> Inl e
      | Inr (s, h) \<Rightarrow> Inr (obj_quantity s, obj_price s, objects h (obj_results s)))"

section \<open>Dicts and the merge of results\<close>

lemma lookup_setitem:
  "DAList.lookup (setitem d k v) k' = (if k = k' then Some v else DAList.lookup d k')"
  by (simp add: setitem_def DAList.lookup_update)

lemma map_of_items: "map_of (items d) = DAList.lookup d"
  by (simp add: items_def DAList.lookup.rep_eq)

lemma distinct_items: "distinct (map fst (items d))"
  by (simp add: items_def)

lemma merge_results_returns: "\<exists>m. merge_results acc xs = Inr m"
proof (induction xs arbitrary: acc)
  case Nil
  show ?case by simp
next
  case (Cons x xs)
  obtain key v where x: "x = (key, v)" by (cases x)
  show ?case using Cons.IH
    by (simp add: x Let_def contains_def getitem_def lookup_setitem split: option.split)
qed

lemma merge_results_lookup:
  "distinct (map fst xs) \<Longrightarrow> merge_results acc xs = Inr m \<Longrightarrow>
   DAList.lookup m k =
     (case map_of xs k of
        None \<Rightarrow> DAList.lookup acc k
      | Some v \<Rightarrow> Some (dict_get acc k 0 + v))"
proof (induction xs arbitrary: acc)
  case Nil
  then show ?case by simp
next
  case (Cons x xs)
  obtain key v where x: "x = (key, v)" by (cases x)
  have step: "merge_results (setitem acc key (dict_get acc key 0 + v)) xs = Inr m"
    using Cons.prems(2)
    by (auto simp: x Let_def contains_def getitem_def lookup_setitem dict_get_def setitem_def
        split: option.splits if_splits)
  have d: "distinct (map fst xs)" and notin: "key \<notin> fst ` set xs"
    using Cons.prems(1) by (auto simp: x)
  have none: "map_of xs key = None"
    using notin by (simp add: map_of_eq_None_iff)
  show ?case
    using Cons.IH [OF d step] none
    by (auto simp: x lookup_setitem dict_get_def split: option.splits)
qed

lemma merge_items_lookup:
  "merge_results acc (items r) = Inr m \<Longrightarrow>
   DAList.lookup m k =
     (case DAList.lookup r k of
        None \<Rightarrow> DAList.lookup acc k
      | Some v \<Rightarrow> Some (dict_get acc k 0 + v))"
  using merge_results_lookup [OF distinct_items, of acc r m k] by (simp add: map_of_items)

lemma merge_items_contains:
  "merge_results acc (items r) = Inr m \<Longrightarrow> contains acc k \<Longrightarrow> contains m k"
  by (auto simp: contains_def merge_items_lookup split: option.splits)

lemma accumulate_steps:
  "accumulate self qty prc dt res_arg =
     (case new_price_step self qty prc (results_arg res_arg) of
        Inl e \<Rightarrow> Inl e
      | Inr (new_price, res) \<Rightarrow>
          (case merge_results (results self) (items res) of
             Inl e \<Rightarrow> Inl e
           | Inr merged \<Rightarrow>
               (if logging self
                then log_operation (commit_step self qty new_price merged) qty prc dt res
                else Inr (commit_step self qty new_price merged))))"
proof -
  define R where "R = results_arg res_arg"
  have R: "(case res_arg of None \<Rightarrow> trades0 | Some r \<Rightarrow> r) = R"
    by (simp add: R_def results_arg_def)
  have "accumulate self qty prc dt res_arg =
     (case new_price_step self qty prc R of
        Inl e \<Rightarrow> Inl e
      | Inr (new_price, res) \<Rightarrow>
          (case merge_results (results self) (items res) of
             Inl e \<Rightarrow> Inl e
           | Inr merged \<Rightarrow>
               (if logging self
                then log_operation (commit_step self qty new_price merged) qty prc dt res
                else Inr (commit_step self qty new_price merged))))"
    unfolding accumulate_def Let_def R new_price_step_def commit_step_def
    by (cases "same_sign (quantity self) qty"; cases "quantity self + qty = 0";
        cases "quantity self = 0";
        cases "average_price (quantity self) (price self) qty prc";
        cases "getitem R ''trades''")
       (simp_all split: sum.split)
  then show ?thesis by (simp add: R_def)
qed

lemma accumulate_Inr_steps:
  assumes "accumulate self qty prc dt res_arg = Inr s'"
  shows "\<exists>new_price res merged.
    new_price_step self qty prc (results_arg res_arg) = Inr (new_price, res) \<and>
    merge_results (results self) (items res) = Inr merged \<and>
    (if logging self
     then log_operation (commit_step self qty new_price merged) qty prc dt res = Inr s'
     else s' = commit_step self qty new_price merged)"
  using assms unfolding accumulate_steps
  by (auto split: sum.splits prod.splits if_splits)

lemma log_operation_fields:
  "log_operation self qty prc dt res = Inr s' \<Longrightarrow>
   asset s' = asset self \<and> accumulator.date s' = accumulator.date self \<and>
   logging s' = logging self \<and> quantity s' = quantity self \<and> price s' = price self \<and>
   results s' = results self"
  by (auto simp: log_operation_def Let_def split: option.splits)

lemma log_operation_other_date:
  "log_operation self qty prc dt res = Inr s' \<Longrightarrow> d \<noteq> dt \<Longrightarrow> log' s' d = log' self d"
  by (auto simp: log_operation_def Let_def split: option.splits)

lemma log_operation_returns:
  "(case log' self dt of None \<Rightarrow> True | Some day \<Rightarrow> operations day \<noteq> None) \<Longrightarrow>
   \<exists>s'. log_operation self qty prc dt res = Inr s'"
  by (auto simp: log_operation_def Let_def split: option.splits)

lemma commit_step_fields:
  "asset (commit_step self qty np m) = asset self"
  "accumulator.date (commit_step self qty np m) = accumulator.date self"
  "logging (commit_step self qty np m) = logging self"
  "log' (commit_step self qty np m) = log' self"
  "quantity (commit_step self qty np m) = quantity self + qty"
  "price (commit_step self qty np m) = (if quantity self + qty \<noteq> 0 then np else 0)"
  "results (commit_step self qty np m) = m"
  by (simp_all add: commit_step_def)

lemma accumulate_fields:
  assumes "accumulate self qty prc dt res_arg = Inr s'"
  shows "asset s' = asset self" "accumulator.date s' = accumulator.date self"
    "logging s' = logging self" "quantity s' = quantity self + qty"
proof -
  from accumulate_Inr_steps [OF assms] obtain np res m where
    s': "if logging self
         then log_operation (commit_step self qty np m) qty prc dt res = Inr s'
         else s' = commit_step self qty np m"
    by blast
  show "asset s' = asset self" "accumulator.date s' = accumulator.date self"
    "logging s' = logging self" "quantity s' = quantity self + qty"
    using s' by (auto dest!: log_operation_fields simp: commit_step_fields split: if_splits)
qed

lemma accumulate_price:
  assumes "accumulate self qty prc dt res_arg = Inr s'"
    and "new_price_step self qty prc (results_arg res_arg) = Inr (np, res)"
  shows "price s' = (if quantity self + qty \<noteq> 0 then np else 0)"
    and "\<And>k. DAList.lookup (results s') k =
      (case DAList.lookup res k of
         None \<Rightarrow> DAList.lookup (results self) k
       | Some v \<Rightarrow> Some (dict_get (results self) k 0 + v))"
proof -
  from accumulate_Inr_steps [OF assms(1)] assms(2) obtain m where
    m: "merge_results (results self) (items res) = Inr m"
    and s': "if logging self
         then log_operation (commit_step self qty np m) qty prc dt res = Inr s'
         else s' = commit_step self qty np m"
    by auto
  have p: "price s' = price (commit_step self qty np m)"
    and r: "results s' = results (commit_step self qty np m)"
    using s' by (auto dest!: log_operation_fields split: if_splits)
  show "price s' = (if quantity self + qty \<noteq> 0 then np else 0)"
    using p by (simp add: commit_step_fields)
  show "\<And>k. DAList.lookup (results s') k =
      (case DAList.lookup res k of
         None \<Rightarrow> DAList.lookup (results self) k
       | Some v \<Rightarrow> Some (dict_get (results self) k 0 + v))"
    using r merge_items_lookup [OF m] by (simp add: commit_step_fields)
qed

lemma accumulate_returns:
  assumes "new_price_step self qty prc (results_arg res_arg) = Inr (np, res)"
    and "can_log self dt"
  shows "\<exists>s'. accumulate self qty prc dt res_arg = Inr s'"
proof -
  obtain m where m: "merge_results (results self) (items res) = Inr m"
    using merge_results_returns by blast
  show ?thesis
  proof (cases "logging self")
    case True
    with assms(2) have "case log' (commit_step self qty np m) dt of None \<Rightarrow> True
        | Some day \<Rightarrow> operations day \<noteq> None"
      by (simp add: can_log_def commit_step_fields)
    from log_operation_returns [OF this] show ?thesis
      by (simp add: accumulate_steps assms(1) m True)
  next
    case False
    then show ?thesis by (simp add: accumulate_steps assms(1) m)
  qed
qed

lemma accumulate_zero_price:
  assumes "accumulate self qty prc dt res_arg = Inr s'" and "quantity s' = 0"
  shows "price s' = 0"
proof -
  from accumulate_Inr_steps [OF assms(1)] obtain np res where
    "new_price_step self qty prc (results_arg res_arg) = Inr (np, res)" by blast
  from accumulate_price(1) [OF assms(1) this] accumulate_fields(4) [OF assms(1)] assms(2)
  show ?thesis by simp
qed

lemma accumulate_contains:
  assumes "accumulate self qty prc dt res_arg = Inr s'" and "contains (results self) k"
  shows "contains (results s') k"
proof -
  from accumulate_Inr_steps [OF assms(1)] obtain np res where
    "new_price_step self qty prc (results_arg res_arg) = Inr (np, res)" by blast
  from accumulate_price(2) [OF assms(1) this, of k] assms(2)
  show ?thesis by (auto simp: contains_def split: option.splits)
qed

lemma accumulate_log:
  assumes "accumulate self qty prc dt res_arg = Inr s'"
  shows "\<not> logging self \<Longrightarrow> log' s' = log' self"
    and "d \<noteq> dt \<Longrightarrow> log' s' d = log' self d"
proof -
  from accumulate_Inr_steps [OF assms(1)] obtain np res m where
    s': "if logging self
         then log_operation (commit_step self qty np m) qty prc dt res = Inr s'
         else s' = commit_step self qty np m"
    by blast
  show "\<not> logging self \<Longrightarrow> log' s' = log' self"
    using s' by (simp add: commit_step_fields)
  show "d \<noteq> dt \<Longrightarrow> log' s' d = log' self d"
    using s' by (auto dest: log_operation_other_date simp: commit_step_fields split: if_splits)
qed

lemma new_price_step_results:
  "new_price_step self qty prc (results_arg res_arg) = Inr (np, res) \<Longrightarrow>
   res = logged_results self qty prc res_arg"
  by (auto simp: new_price_step_def logged_results_def getitem_def dict_get_def
      split: if_splits sum.splits option.splits)

lemma log_operation_day:
  "log_operation self qty prc dt res = Inr s' \<Longrightarrow>
   \<exists>day. log' s' dt = Some day \<and>
     operations day = Some (operations_on self dt @
       [\<lparr>entry_quantity = qty, entry_price = prc, entry_results = res\<rparr>]) \<and>
     position day = Some (quantity self, price self)"
  by (auto simp: log_operation_def operations_on_def Let_def split: option.splits)

lemma accumulate_logged:
  assumes "logging self" and "accumulate self qty prc dt res_arg = Inr s'"
  shows "\<exists>day. log' s' dt = Some day \<and>
     operations day = Some (operations_on self dt @
       [\<lparr>entry_quantity = qty, entry_price = prc,
         entry_results = logged_results self qty prc res_arg\<rparr>]) \<and>
     position day = Some (quantity s', price s')"
proof -
  from accumulate_Inr_steps [OF assms(2)] assms(1) obtain np res m where
    n: "new_price_step self qty prc (results_arg res_arg) = Inr (np, res)"
    and s': "log_operation (commit_step self qty np m) qty prc dt res = Inr s'"
    by auto
  have same: "operations_on (commit_step self qty np m) dt = operations_on self dt"
    by (simp add: operations_on_def commit_step_fields)
  from log_operation_day [OF s'] log_operation_fields [OF s'] new_price_step_results [OF n] same
  show ?thesis by auto
qed

lemma accumulate_can_log:
  assumes "accumulate self qty prc dt res_arg = Inr s'" and "can_log self d"
  shows "can_log s' d"
proof (cases "logging self")
  case False
  with accumulate_fields(3) [OF assms(1)] show ?thesis by (simp add: can_log_def)
next
  case True
  show ?thesis
  proof (cases "d = dt")
    case True
    from accumulate_logged [OF \<open>logging self\<close> assms(1)] show ?thesis
      by (auto simp: can_log_def True)
  next
    case False
    from accumulate_log(2) [OF assms(1) False] assms(2) accumulate_fields(3) [OF assms(1)]
    show ?thesis by (simp add: can_log_def)
  qed
qed

lemma accumulate_all_contains:
  "accumulate_all self calls = Inr s' \<Longrightarrow> contains (results self) k \<Longrightarrow>
   contains (results s') k"
proof (induction calls arbitrary: self)
  case Nil
  then show ?case by simp
next
  case (Cons c calls)
  obtain qty prc dt res_arg where c: "c = (qty, prc, dt, res_arg)" by (cases c)
  from Cons.prems(1) obtain s1 where
    s1: "accumulate self qty prc dt res_arg = Inr s1" and rest: "accumulate_all s1 calls = Inr s'"
    by (auto simp: c split: sum.splits)
  from Cons.IH [OF rest accumulate_contains [OF s1 Cons.prems(2)]] show ?case .
qed

lemma fold_setitem_lookup:
  "distinct (map fst xs) \<Longrightarrow>
   DAList.lookup (fold (\<lambda>(key, v) c. setitem c key (f v)) xs c0) k =
     (case map_of xs k of None \<Rightarrow> DAList.lookup c0 k | Some v \<Rightarrow> Some (f v))"
proof (induction xs arbitrary: c0)
  case Nil
  then show ?case by simp
next
  case (Cons x xs)
  obtain key v where x: "x = (key, v)" by (cases x)
  have d: "distinct (map fst xs)" and "key \<notin> fst ` set xs"
    using Cons.prems by (auto simp: x)
  then have none: "map_of xs key = None"
    by (simp add: map_of_eq_None_iff)
  show ?case
    using Cons.IH [OF d, of "setitem c0 key (f v)"] none
    by (auto simp: x lookup_setitem split: option.splits)
qed

text \<open>The definitions a concrete call is evaluated with.\<close>

lemmas eval_simps = accumulate_def init_def same_sign_def average_price_def log_operation_def
  contains_def getitem_def setitem_def items_def trades0_def Let_def
  DAList.lookup_update DAList.update.rep_eq DAList.empty.rep_eq

section \<open>The model with objects\<close>

lemma log_operation_obj_day:
  assumes "log_operation_obj self qty prc dt res = Inr s'"
  shows "\<exists>day. obj_log s' dt = Some day \<and>
     obj_operations day = Some (operations_on_obj self dt @
       [\<lparr>obj_entry_quantity = qty, obj_entry_price = prc, obj_entry_results = res\<rparr>]) \<and>
     obj_position day = Some (obj_quantity self, obj_price self)"
    and "obj_quantity s' = obj_quantity self" and "obj_price s' = obj_price self"
    and "obj_results s' = obj_results self" and "obj_logging s' = obj_logging self"
  using assms
  by (auto simp: log_operation_obj_def operations_on_obj_def Let_def split: option.splits)

lemma accumulate_obj_steps:
  "accumulate_obj h self qty prc dt res_arg =
     (case (case res_arg of None \<Rightarrow> alloc h trades0 | Some r \<Rightarrow> (r, h)) of
        (res, h) \<Rightarrow>
          (case branch_obj h self qty prc res of
             Inl e \<Rightarrow> Inl e
           | Inr (new_price, h) \<Rightarrow>
               (case merge_results (objects h (obj_results self)) (items (objects h res)) of
                  Inl e \<Rightarrow> Inl e
                | Inr merged \<Rightarrow>
                    (if obj_logging self then
                       (case log_operation_obj (commit_obj self qty new_price) qty prc dt res of
                          Inl e \<Rightarrow> Inl e
                        | Inr s' \<Rightarrow>
                            Inr (s', h\<lparr>objects := (objects h)(obj_results self := merged)\<rparr>))
                     else Inr (commit_obj self qty new_price,
                               h\<lparr>objects := (objects h)(obj_results self := merged)\<rparr>)))))"
proof -
  obtain res h0 where
    arg: "(case res_arg of None \<Rightarrow> alloc h trades0 | Some r \<Rightarrow> (r, h)) = (res, h0)"
    by (cases "(case res_arg of None \<Rightarrow> alloc h trades0 | Some r \<Rightarrow> (r, h))")
  show ?thesis
    unfolding accumulate_obj_def Let_def arg branch_obj_def commit_obj_def
    by (cases "same_sign (obj_quantity self) qty"; cases "obj_quantity self + qty = 0";
        cases "obj_quantity self = 0";
        cases "average_price (obj_quantity self) (obj_price self) qty prc";
        cases "getitem (objects h0 res) ''trades''")
       (simp_all split: sum.split)
qed

lemma branch_obj_frame:
  "branch_obj h self qty prc res = Inr (np, h1) \<Longrightarrow> x \<noteq> res \<Longrightarrow>
   objects h1 x = objects h x"
  by (auto simp: branch_obj_def split: if_splits sum.splits)

lemma accumulate_obj_Inr:
  assumes "accumulate_obj h self qty prc dt res_arg = Inr (s', h')"
  shows "obj_results s' = obj_results self" and "obj_logging s' = obj_logging self"
    and "obj_logging self \<Longrightarrow>
      \<exists>day. obj_log s' dt = Some day \<and>
        obj_operations day = Some (operations_on_obj self dt @
          [\<lparr>obj_entry_quantity = qty, obj_entry_price = prc,
            obj_entry_results = results_ref h res_arg\<rparr>]) \<and>
        obj_position day = Some (obj_quantity s', obj_price s')"
    and "x \<noteq> results_ref h res_arg \<Longrightarrow> x \<noteq> obj_results self \<Longrightarrow>
      objects h' x = objects h x"
proof -
  define res where "res = results_ref h res_arg"
  obtain h0 where
    arg: "(case res_arg of None \<Rightarrow> alloc h trades0 | Some r \<Rightarrow> (r, h)) = (res, h0)"
    and h0: "\<And>y. y \<noteq> res \<Longrightarrow> objects h0 y = objects h y"
    by (cases res_arg) (simp_all add: res_def results_ref_def alloc_def)
  from assms obtain np h1 merged where
    b: "branch_obj h0 self qty prc res = Inr (np, h1)"
    and h': "h' = h1\<lparr>objects := (objects h1)(obj_results self := merged)\<rparr>"
    and s': "if obj_logging self
         then log_operation_obj (commit_obj self qty np) qty prc dt res = Inr s'
         else s' = commit_obj self qty np"
    unfolding accumulate_obj_steps arg
    by (auto split: sum.splits if_splits)
  have c: "obj_results (commit_obj self qty np) = obj_results self"
    "obj_logging (commit_obj self qty np) = obj_logging self"
    "operations_on_obj (commit_obj self qty np) dt = operations_on_obj self dt"
    by (simp_all add: commit_obj_def operations_on_obj_def)
  show "obj_results s' = obj_results self" and "obj_logging s' = obj_logging self"
    using s' c log_operation_obj_day(4,5) [of "commit_obj self qty np" qty prc dt res s']
    by (auto split: if_splits)
  show "\<exists>day. obj_log s' dt = Some day \<and>
        obj_operations day = Some (operations_on_obj self dt @
          [\<lparr>obj_entry_quantity = qty, obj_entry_price = prc,
            obj_entry_results = results_ref h res_arg\<rparr>]) \<and>
        obj_position day = Some (obj_quantity s', obj_price s')"
    if "obj_logging self"
  proof -
    from s' that have l: "log_operation_obj (commit_obj self qty np) qty prc dt res = Inr s'"
      by simp
    from log_operation_obj_day(1) [OF l] log_operation_obj_day(2,3) [OF l] c(3)
    show ?thesis by (simp add: res_def)
  qed
  show "objects h' x = objects h x"
    if "x \<noteq> results_ref h res_arg" and "x \<noteq> obj_results self"
    using that branch_obj_frame [OF b, of x] h0 [of x] by (simp add: h' res_def)
qed

text \<open>
  The two models agree on whether a call raises and on the quantity, the price and the
  results it commits, whenever the dict of the call is not the accumulator's own
  \<^verbatim>\<open>results\<close> object. What they differ in is the identity of the dicts the log holds.
\<close>

lemma log_operation_agrees:
  "position_of (log_operation (commit_step (accumulator_value h self) qty np m) qty prc dt res) =
   (case log_operation_obj (commit_obj self qty np) qty prc dt r of
      Inl e \<Rightarrow> Inl e
    | Inr s \<Rightarrow> Inr (obj_quantity s, obj_price s, m))"
  by (simp add: position_of_def log_operation_def log_operation_obj_def accumulator_value_def
      commit_step_def commit_obj_def day_value_def Let_def split: option.split)

lemma branch_obj_agrees:
  "branch_obj h self qty prc res = Inl e \<Longrightarrow>
   new_price_step (accumulator_value hx self) qty prc (objects h res) = Inl e"
  "branch_obj h self qty prc res = Inr (np, h1) \<Longrightarrow> res \<noteq> obj_results self \<Longrightarrow>
   new_price_step (accumulator_value hx self) qty prc (objects h res) = Inr (np, objects h1 res) \<and>
   objects h1 (obj_results self) = objects h (obj_results self)"
  by (auto simp: branch_obj_def new_price_step_def accumulator_value_def
      split: sum.splits if_splits)

lemma accumulate_obj_agrees:
  assumes "results_ref h res_arg \<noteq> obj_results self"
  shows "position_of_obj (accumulate_obj h self qty prc dt res_arg) =
         position_of (accumulate (accumulator_value h self) qty prc dt
           (map_option (objects h) res_arg))"
proof -
  define res where "res = results_ref h res_arg"
  obtain h0 where
    arg: "(case res_arg of None \<Rightarrow> alloc h trades0 | Some r \<Rightarrow> (r, h)) = (res, h0)"
    and given: "objects h0 res = results_arg (map_option (objects h) res_arg)"
    and own: "objects h0 (obj_results self) = objects h (obj_results self)"
    using assms
    by (cases res_arg) (simp_all add: res_def results_ref_def alloc_def results_arg_def)
  have ne: "res \<noteq> obj_results self" using assms by (simp add: res_def)
  show ?thesis
  proof (cases "branch_obj h0 self qty prc res")
    case (Inl e)
    from branch_obj_agrees(1) [OF Inl, of h] show ?thesis
      by (simp add: accumulate_obj_steps arg Inl accumulate_steps given position_of_def
          position_of_obj_def)
  next
    case (Inr b)
    obtain np h1 where b: "b = (np, h1)" by (cases b)
    from branch_obj_agrees(2) [OF Inr [unfolded b] ne, of h] have
      n: "new_price_step (accumulator_value h self) qty prc
            (results_arg (map_option (objects h) res_arg)) = Inr (np, objects h1 res)"
      and o: "objects h1 (obj_results self) = objects h (obj_results self)"
      by (simp_all add: given own)
    obtain m where
      m: "merge_results (objects h (obj_results self)) (items (objects h1 res)) = Inr m"
      using merge_results_returns by blast
    have r: "results (accumulator_value h self) = objects h (obj_results self)"
      "logging (accumulator_value h self) = obj_logging self"
      by (simp_all add: accumulator_value_def)
    show ?thesis
    proof (cases "obj_logging self")
      case True
      have "obj_results s' = obj_results self"
        if "log_operation_obj (commit_obj self qty np) qty prc dt res = Inr s'" for s'
        using log_operation_obj_day(4) [OF that] by (simp add: commit_obj_def)
      then show ?thesis
        using log_operation_agrees [of h self qty np m prc dt "objects h1 res" res]
        by (simp add: accumulate_obj_steps arg Inr b accumulate_steps n o m r True
            position_of_obj_def split: sum.splits)
    next
      case False
      have c: "position_of (Inr (commit_step (accumulator_value h self) qty np m)) =
          Inr (obj_quantity (commit_obj self qty np), obj_price (commit_obj self qty np), m)"
        and c': "obj_results (commit_obj self qty np) = obj_results self"
        by (simp_all add: position_of_def commit_step_def commit_obj_def accumulator_value_def)
      show ?thesis
        using c c'
        by (simp add: accumulate_obj_steps arg Inr b accumulate_steps n o m r False
            position_of_obj_def)
    qed
  qed
qed

text \<open>The definitions a concrete call of this model is evaluated with.\<close>

lemmas eval_obj_simps = accumulate_obj_def init_obj_def alloc_def log_operation_obj_def
  same_sign_def average_price_def contains_def getitem_def setitem_def items_def trades0_def
  Let_def operations_on_obj_def trades_logged_def two_dicts_def no_objects_def
  long_100_at_10_obj_def
  DAList.lookup_update DAList.update.rep_eq DAList.empty.rep_eq

section \<open>The claims\<close>

text \<open>
  C1. An accumulator that holds 100 units at price 10 and is given the trade of -150
  units at price 12 commits the quantity -50 and the price 12, and its result
  \<^verbatim>\<open>trades\<close> grows by \<open>|-150| * 12 - |-150| * 10 = 300\<close>: the realized result takes
  the whole magnitude of the incoming trade, not only the 100 units that close the
  old position. The call returns whenever the log can take the operation.
\<close>

theorem flip_uses_full_magnitude:
  assumes "quantity self = 100" and "price self = 10" and "can_log self dt"
  shows "\<exists>s'. accumulate self (- 150) 12 dt None = Inr s' \<and>
           quantity s' = - 50 \<and> price s' = 12 \<and>
           getitem (results s') ''trades'' =
             Inr (dict_get (results self) ''trades'' 0 + (\<bar>- 150\<bar> * 12 - \<bar>- 150\<bar> * 10)) \<and>
           \<bar>- 150\<bar> * 12 - \<bar>- 150\<bar> * 10 = (300 :: real)"
proof -
  have step: "new_price_step self (- 150) 12 (results_arg None) =
      Inr (12, setitem trades0 ''trades'' 300)"
    using assms(1,2)
    by (simp add: new_price_step_def same_sign_def results_arg_def getitem_def trades0_def
        lookup_setitem)
  from accumulate_returns [OF step assms(3)] obtain s' where
    s': "accumulate self (- 150) 12 dt None = Inr s'" by blast
  have "quantity s' = - 50"
    using accumulate_fields(4) [OF s'] assms(1) by simp
  moreover have "price s' = 12"
    using accumulate_price(1) [OF s' step] assms(1) by simp
  moreover have "getitem (results s') ''trades'' =
      Inr (dict_get (results self) ''trades'' 0 + 300)"
    using accumulate_price(2) [OF s' step, of "''trades''"]
    by (simp add: getitem_def lookup_setitem)
  ultimately show ?thesis using s' by simp
qed

theorem flip_uses_full_magnitude_witness:
  "quantity long_100_at_10 = 100 \<and> price long_100_at_10 = 10 \<and>
   can_log long_100_at_10 (Some ''2020-01-02'') \<and>
   (\<exists>s'. accumulate long_100_at_10 (- 150) 12 (Some ''2020-01-02'') None = Inr s' \<and>
      quantity s' = - 50 \<and> price s' = 12 \<and> getitem (results s') ''trades'' = Inr 300)"
proof -
  have h: "quantity long_100_at_10 = 100" "price long_100_at_10 = 10"
    "can_log long_100_at_10 (Some ''2020-01-02'')"
    by (simp_all add: long_100_at_10_def init_def can_log_def)
  have "dict_get (results long_100_at_10) ''trades'' 0 = 0"
    by (simp add: long_100_at_10_def init_def dict_get_def trades0_def lookup_setitem)
  with flip_uses_full_magnitude [OF h] h show ?thesis by simp
qed

text \<open>
  C2. The claim is that \<^verbatim>\<open>accumulate\<close> never raises. The code raises in two
  places. A trade that opposes a nonzero position reads \<^verbatim>\<open>results['trades']\<close>
  unguarded, so results given without that key (the docstring's own example is
  \<^verbatim>\<open>{'daytrade': 100}\<close>) raise \<^verbatim>\<open>KeyError\<close>, while the merge loop a few lines below
  does create a missing key. And \<^verbatim>\<open>log_operation\<close> appends to the \<^verbatim>\<open>operations\<close>
  of a date that \<^verbatim>\<open>log_event\<close> created with \<^verbatim>\<open>events\<close> only, which \<^verbatim>\<open>log_event\<close>
  guards against in the symmetric case. Both are evaluated here.
\<close>

theorem accumulate_raises_key_error:
  "accumulate long_100_at_10 (- 40) 15 (Some ''2020-01-02'')
     (Some (setitem DAList.empty ''daytrade'' 5)) = Inl (KeyError ''trades'') \<and>
   accumulate
     (accumulate_event (init ''ASSET'' None True) (plain_event (Some ''2020-01-02'') ''split''))
     10 100 (Some ''2020-01-02'') None = Inl (KeyError ''operations'')"
  by (simp add: long_100_at_10_def accumulate_event_def log_event_def plain_event_def eval_simps)

text \<open>
  C3. The claim is that after \<^verbatim>\<open>accumulate\<close> with a date the accumulator's
  \<^verbatim>\<open>date\<close> is that date, as the class docstring says of the attribute ("the date of
  the last status change"). No statement of \<^verbatim>\<open>accumulate\<close> assigns it
  (\<open>accumulate_fields\<close> shows that the date is unchanged by every call): the first
  dated call on a fresh accumulator leaves it \<^verbatim>\<open>None\<close>.
\<close>

theorem accumulate_leaves_date_unset:
  "\<exists>s'. accumulate (init ''ASSET'' None False) 10 100 (Some ''2020-01-01'') None = Inr s' \<and>
     accumulator.date s' = None"
  by (simp add: eval_simps)

text \<open>
  C4. After any non-empty sequence of \<^verbatim>\<open>accumulate\<close> calls, from any initial state
  of the accumulator, a committed quantity of 0 comes with a committed price of 0.
\<close>

theorem zero_quantity_has_zero_price:
  "calls \<noteq> [] \<Longrightarrow> accumulate_all self calls = Inr s' \<Longrightarrow> quantity s' = 0 \<Longrightarrow>
   price s' = 0"
proof (induction calls arbitrary: self)
  case Nil
  then show ?case by simp
next
  case (Cons c calls)
  obtain qty prc dt res_arg where c: "c = (qty, prc, dt, res_arg)" by (cases c)
  from Cons.prems(2) obtain s1 where
    s1: "accumulate self qty prc dt res_arg = Inr s1" and rest: "accumulate_all s1 calls = Inr s'"
    by (auto simp: c split: sum.splits)
  show ?case
  proof (cases "calls = []")
    case True
    with rest have "s' = s1" by simp
    with accumulate_zero_price [OF s1] Cons.prems(3) show ?thesis by simp
  next
    case False
    from Cons.IH [OF False rest Cons.prems(3)] show ?thesis .
  qed
qed

theorem zero_quantity_has_zero_price_witness:
  "buy_then_sell \<noteq> [] \<and>
   (\<exists>s'. accumulate_all (init ''ASSET'' None False) buy_then_sell = Inr s' \<and>
      quantity s' = 0 \<and> price s' = 0 \<and> getitem (results s') ''trades'' = Inr 100)"
proof -
  have ne: "buy_then_sell \<noteq> []" by (simp add: buy_then_sell_def)
  have "\<exists>s'. accumulate_all (init ''ASSET'' None False) buy_then_sell = Inr s' \<and>
      quantity s' = 0 \<and> getitem (results s') ''trades'' = Inr 100"
    by (simp add: buy_then_sell_def eval_simps)
  then obtain s' where run: "accumulate_all (init ''ASSET'' None False) buy_then_sell = Inr s'"
    and q: "quantity s' = 0" and t: "getitem (results s') ''trades'' = Inr 100"
    by blast
  from zero_quantity_has_zero_price [OF ne run q] ne run q t show ?thesis by blast
qed

text \<open>
  C5. An accumulator that holds 100 units at price 10 and is given the trade of -40
  units at price 15 has its result \<^verbatim>\<open>trades\<close> grow by \<open>40 * 15 - 40 * 10 = 200\<close>,
  holds 60 units afterwards and keeps the price 10: a reducing trade that does not
  flip the sign leaves the average cost unchanged.
\<close>

theorem reducing_trade_keeps_price:
  assumes "quantity self = 100" and "price self = 10" and "can_log self dt"
  shows "\<exists>s'. accumulate self (- 40) 15 dt None = Inr s' \<and>
           quantity s' = 60 \<and> price s' = 10 \<and>
           getitem (results s') ''trades'' =
             Inr (dict_get (results self) ''trades'' 0 + (40 * 15 - 40 * 10)) \<and>
           40 * 15 - 40 * 10 = (200 :: real)"
proof -
  have step: "new_price_step self (- 40) 15 (results_arg None) =
      Inr (10, setitem trades0 ''trades'' 200)"
    using assms(1,2)
    by (simp add: new_price_step_def same_sign_def results_arg_def getitem_def trades0_def
        lookup_setitem)
  from accumulate_returns [OF step assms(3)] obtain s' where
    s': "accumulate self (- 40) 15 dt None = Inr s'" by blast
  have "quantity s' = 60"
    using accumulate_fields(4) [OF s'] assms(1) by simp
  moreover have "price s' = 10"
    using accumulate_price(1) [OF s' step] assms(1) by simp
  moreover have "getitem (results s') ''trades'' =
      Inr (dict_get (results self) ''trades'' 0 + 200)"
    using accumulate_price(2) [OF s' step, of "''trades''"]
    by (simp add: getitem_def lookup_setitem)
  ultimately show ?thesis using s' by simp
qed

theorem reducing_trade_keeps_price_witness:
  "quantity long_100_at_10 = 100 \<and> price long_100_at_10 = 10 \<and>
   can_log long_100_at_10 (Some ''2020-01-02'') \<and>
   (\<exists>s'. accumulate long_100_at_10 (- 40) 15 (Some ''2020-01-02'') None = Inr s' \<and>
      quantity s' = 60 \<and> price s' = 10 \<and> getitem (results s') ''trades'' = Inr 200)"
proof -
  have h: "quantity long_100_at_10 = 100" "price long_100_at_10 = 10"
    "can_log long_100_at_10 (Some ''2020-01-02'')"
    by (simp_all add: long_100_at_10_def init_def can_log_def)
  have "dict_get (results long_100_at_10) ''trades'' 0 = 0"
    by (simp add: long_100_at_10_def init_def dict_get_def trades0_def lookup_setitem)
  with reducing_trade_keeps_price [OF h] h show ?thesis by simp
qed

text \<open>
  C6. Two nonzero trades \<open>(q1, p1)\<close> and \<open>(q2, p2)\<close> of the same direction, applied
  to a flat accumulator (quantity 0, price 0), leave the quantity \<open>q1 + q2\<close> and the
  price \<open>(q1 * p1 + q2 * p2) / (q1 + q2)\<close>, whatever dates and results they carry.
\<close>

theorem two_same_direction_trades_average:
  assumes "quantity self = 0" and "price self = 0"
    and "(0 < q1 \<and> 0 < q2) \<or> (q1 < 0 \<and> q2 < 0)"
    and "can_log self d1" and "can_log self d2"
  shows "\<exists>s1 s2. accumulate self q1 p1 d1 r1 = Inr s1 \<and>
           accumulate s1 q2 p2 d2 r2 = Inr s2 \<and>
           quantity s2 = q1 + q2 \<and>
           price s2 = (q1 * p1 + q2 * p2) / (q1 + q2)"
proof -
  from assms(3) have nz: "q1 \<noteq> 0" "q1 + q2 \<noteq> 0" and same: "same_sign q1 q2"
    by (auto simp: same_sign_def)
  have step1: "new_price_step self q1 p1 (results_arg r1) = Inr (p1, results_arg r1)"
    using assms(1,2) nz by (simp add: new_price_step_def same_sign_def average_price_def)
  from accumulate_returns [OF step1 assms(4)] obtain s1 where
    s1: "accumulate self q1 p1 d1 r1 = Inr s1" by blast
  have q1: "quantity s1 = q1"
    using accumulate_fields(4) [OF s1] assms(1) by simp
  have p1: "price s1 = p1"
    using accumulate_price(1) [OF s1 step1] assms(1) nz by simp
  have step2: "new_price_step s1 q2 p2 (results_arg r2) =
      Inr ((q1 * p1 + q2 * p2) / (q1 + q2), results_arg r2)"
    using q1 p1 nz same by (simp add: new_price_step_def average_price_def)
  from accumulate_returns [OF step2 accumulate_can_log [OF s1 assms(5)]] obtain s2 where
    s2: "accumulate s1 q2 p2 d2 r2 = Inr s2" by blast
  have "quantity s2 = q1 + q2"
    using accumulate_fields(4) [OF s2] q1 by simp
  moreover have "price s2 = (q1 * p1 + q2 * p2) / (q1 + q2)"
    using accumulate_price(1) [OF s2 step2] q1 nz by simp
  ultimately show ?thesis using s1 s2 by blast
qed

theorem two_same_direction_trades_average_witness:
  "quantity (init ''ASSET'' None True) = 0 \<and> price (init ''ASSET'' None True) = 0 \<and>
   ((0 < (10::real) \<and> 0 < (30::real)) \<or> ((10::real) < 0 \<and> (30::real) < 0)) \<and>
   can_log (init ''ASSET'' None True) (Some ''2020-01-01'') \<and>
   can_log (init ''ASSET'' None True) (Some ''2020-01-02'') \<and>
   (\<exists>s1 s2. accumulate (init ''ASSET'' None True) 10 100 (Some ''2020-01-01'') None = Inr s1 \<and>
      accumulate s1 30 120 (Some ''2020-01-02'') None = Inr s2 \<and>
      quantity s2 = 40 \<and> price s2 = 115)"
proof -
  have h: "quantity (init ''ASSET'' None True) = 0" "price (init ''ASSET'' None True) = 0"
    "(0 < (10::real) \<and> 0 < (30::real)) \<or> ((10::real) < 0 \<and> (30::real) < 0)"
    "can_log (init ''ASSET'' None True) (Some ''2020-01-01'')"
    "can_log (init ''ASSET'' None True) (Some ''2020-01-02'')"
    by (simp_all add: init_def can_log_def)
  from two_same_direction_trades_average [OF h, of 100 None 120 None] h
  show ?thesis by simp
qed

text \<open>
  C7. With logging enabled, two completed \<^verbatim>\<open>accumulate\<close> calls with the same date
  leave one record for that date. Its \<^verbatim>\<open>operations\<close> are the operations the date had
  before, followed by the entries of the two calls in call order, each holding the
  quantity, the price and the \<^verbatim>\<open>results\<close> dict (the object) of its call; the entry of the
  first call is the one that stood there after the first call; the \<^verbatim>\<open>position\<close> of the
  record is the quantity and price committed by the second call. The dict of the first
  entry reads after the second call what it read before it, provided it is neither the
  dict given to the second call nor the accumulator's own \<^verbatim>\<open>results\<close>.

  The proviso is needed: the claim as stated, for every two calls and with earlier
  entries never rewritten, fails when one dict is given to both calls
  (\<open>shared_dict_rewrites_first_entry\<close> below).
\<close>

theorem log_entries_are_appended:
  assumes "obj_logging self"
    and "accumulate_obj h self q1 p1 d r1 = Inr (s1, h1)"
    and "accumulate_obj h1 s1 q2 p2 d r2 = Inr (s2, h2)"
  shows "\<exists>day1 day2.
           obj_log s1 d = Some day1 \<and>
           obj_operations day1 = Some (operations_on_obj self d @
             [\<lparr>obj_entry_quantity = q1, obj_entry_price = p1,
               obj_entry_results = results_ref h r1\<rparr>]) \<and>
           obj_log s2 d = Some day2 \<and>
           obj_operations day2 = Some (operations_on_obj self d @
             [\<lparr>obj_entry_quantity = q1, obj_entry_price = p1,
               obj_entry_results = results_ref h r1\<rparr>,
              \<lparr>obj_entry_quantity = q2, obj_entry_price = p2,
               obj_entry_results = results_ref h1 r2\<rparr>]) \<and>
           obj_position day2 = Some (obj_quantity s2, obj_price s2) \<and>
           (results_ref h r1 \<noteq> results_ref h1 r2 \<and> results_ref h r1 \<noteq> obj_results self \<longrightarrow>
              objects h2 (results_ref h r1) = objects h1 (results_ref h r1))"
proof -
  from accumulate_obj_Inr(3) [OF assms(2,1)] obtain day1 where
    d1: "obj_log s1 d = Some day1"
    and o1: "obj_operations day1 = Some (operations_on_obj self d @
       [\<lparr>obj_entry_quantity = q1, obj_entry_price = p1,
         obj_entry_results = results_ref h r1\<rparr>])"
    by blast
  have on1: "operations_on_obj s1 d = operations_on_obj self d @
       [\<lparr>obj_entry_quantity = q1, obj_entry_price = p1,
         obj_entry_results = results_ref h r1\<rparr>]"
    by (simp add: operations_on_obj_def d1 o1)
  have lg1: "obj_logging s1" and r1: "obj_results s1 = obj_results self"
    using accumulate_obj_Inr(1,2) [OF assms(2)] assms(1) by simp_all
  from accumulate_obj_Inr(3) [OF assms(3) lg1] obtain day2 where
    "obj_log s2 d = Some day2"
    "obj_operations day2 = Some (operations_on_obj s1 d @
       [\<lparr>obj_entry_quantity = q2, obj_entry_price = p2,
         obj_entry_results = results_ref h1 r2\<rparr>])"
    "obj_position day2 = Some (obj_quantity s2, obj_price s2)"
    by blast
  moreover have "objects h2 (results_ref h r1) = objects h1 (results_ref h r1)"
    if "results_ref h r1 \<noteq> results_ref h1 r2" and "results_ref h r1 \<noteq> obj_results self"
    using accumulate_obj_Inr(4) [OF assms(3), of "results_ref h r1"] that r1 by simp
  ultimately show ?thesis using d1 o1 on1 by simp
qed

theorem log_entries_are_appended_witness:
  "obj_logging long_100_at_10_obj \<and>
   (\<exists>s1 h1 s2 h2 day2.
      accumulate_obj two_dicts long_100_at_10_obj (- 40) 15 (Some ''2020-01-02'') (Some 1) =
        Inr (s1, h1) \<and>
      accumulate_obj h1 s1 (- 60) 20 (Some ''2020-01-02'') None = Inr (s2, h2) \<and>
      obj_log s2 (Some ''2020-01-02'') = Some day2 \<and>
      obj_operations day2 = Some
        [\<lparr>obj_entry_quantity = - 40, obj_entry_price = 15, obj_entry_results = 1\<rparr>,
         \<lparr>obj_entry_quantity = - 60, obj_entry_price = 20, obj_entry_results = 2\<rparr>] \<and>
      obj_position day2 = Some (0, 0) \<and>
      getitem (objects h1 1) ''trades'' = Inr 200 \<and>
      objects h2 1 = objects h1 1 \<and>
      getitem (objects h2 2) ''trades'' = Inr 600)"
proof -
  have lg: "obj_logging long_100_at_10_obj"
    by (simp add: long_100_at_10_obj_def init_obj_def)
  have "\<exists>s1 h1 s2 h2.
      accumulate_obj two_dicts long_100_at_10_obj (- 40) 15 (Some ''2020-01-02'') (Some 1) =
        Inr (s1, h1) \<and>
      accumulate_obj h1 s1 (- 60) 20 (Some ''2020-01-02'') None = Inr (s2, h2) \<and>
      fresh h1 = 2 \<and> obj_quantity s2 = 0 \<and> obj_price s2 = 0 \<and>
      getitem (objects h1 1) ''trades'' = Inr 200 \<and>
      getitem (objects h2 2) ''trades'' = Inr 600"
    by (simp add: eval_obj_simps)
  then obtain s1 h1 s2 h2 where
    c1: "accumulate_obj two_dicts long_100_at_10_obj (- 40) 15 (Some ''2020-01-02'') (Some 1) =
        Inr (s1, h1)"
    and c2: "accumulate_obj h1 s1 (- 60) 20 (Some ''2020-01-02'') None = Inr (s2, h2)"
    and v: "fresh h1 = 2" "obj_quantity s2 = 0" "obj_price s2 = 0"
      "getitem (objects h1 1) ''trades'' = Inr 200" "getitem (objects h2 2) ''trades'' = Inr 600"
    by blast
  have none: "operations_on_obj long_100_at_10_obj (Some ''2020-01-02'') = []"
    and own: "obj_results long_100_at_10_obj = 0"
    by (simp_all add: operations_on_obj_def long_100_at_10_obj_def init_obj_def)
  have refs: "results_ref two_dicts (Some 1) = 1" "results_ref h1 None = 2"
    by (simp_all add: results_ref_def v)
  from log_entries_are_appended [OF lg c1 c2] lg c1 c2 none own refs v show ?thesis
    by auto
qed

text \<open>
  The counterexample to C7 as stated: one dict \<^verbatim>\<open>{'trades': 0}\<close> given to both calls
  on a position of 100 units at price 10. After the trade of -40 at 15 the entry of the
  date reads \<^verbatim>\<open>trades\<close> = 200; after the trade of -60 at 20 with the same dict both
  entries read 800: the second call has added its 600 to the dict the first entry
  holds.
\<close>

theorem shared_dict_rewrites_first_entry:
  "trades_logged (Some ''2020-01-02'')
     (accumulate_all_obj two_dicts long_100_at_10_obj
        [(- 40, 15, Some ''2020-01-02'', Some 1)]) = [Inr 200] \<and>
   trades_logged (Some ''2020-01-02'')
     (accumulate_all_obj two_dicts long_100_at_10_obj
        [(- 40, 15, Some ''2020-01-02'', Some 1),
         (- 60, 20, Some ''2020-01-02'', Some 1)]) = [Inr 800, Inr 800]"
  by (simp add: eval_obj_simps)

text \<open>
  C8. The claim is that the results always contain the key \<^verbatim>\<open>trades\<close>, also
  right after a construction seeded from an arbitrary initial status. A seeded
  accumulator takes the results of the initial status verbatim, so the claim fails
  for a status whose results lack the key (\<open>seeded_results_lack_trades\<close> below).
  What holds: an accumulator constructed fresh, or seeded from a status whose results
  contain \<^verbatim>\<open>trades\<close>, has the key right after construction (the empty sequence of
  calls) and after every sequence of \<^verbatim>\<open>accumulate\<close> calls.
\<close>

theorem trades_key_is_kept:
  assumes "case status of None \<Rightarrow> True | Some st \<Rightarrow> contains (status_results st) ''trades''"
    and "accumulate_all (init asset_arg status logging_arg) calls = Inr s'"
  shows "contains (results s') ''trades''"
proof -
  have "contains (results (init asset_arg status logging_arg)) ''trades''"
    using assms(1)
    by (cases status) (simp_all add: init_def trades0_def contains_def lookup_setitem)
  from accumulate_all_contains [OF assms(2) this] show ?thesis .
qed

theorem trades_key_is_kept_witness:
  "(\<exists>s'. accumulate_all (init ''ASSET'' None False) buy_then_sell = Inr s' \<and>
      contains (results s') ''trades'') \<and>
   contains (status_results \<lparr>status_date = Some ''2020-01-01'', status_quantity = 100,
      status_price = 10, status_results = trades0\<rparr>) ''trades'' \<and>
   contains (results long_100_at_10) ''trades''"
proof -
  have "\<exists>s'. accumulate_all (init ''ASSET'' None False) buy_then_sell = Inr s'"
    by (simp add: buy_then_sell_def eval_simps)
  then obtain s' where
    run: "accumulate_all (init ''ASSET'' None False) buy_then_sell = Inr s'" by blast
  have fresh: "case None :: initial_status option of None \<Rightarrow> True
      | Some st \<Rightarrow> contains (status_results st) ''trades''"
    by simp
  have seeded: "contains (status_results \<lparr>status_date = Some ''2020-01-01'',
      status_quantity = 100, status_price = 10, status_results = trades0\<rparr>) ''trades''"
    by (simp add: trades0_def contains_def lookup_setitem)
  then have seeded': "case Some \<lparr>status_date = Some ''2020-01-01'',
      status_quantity = 100, status_price = 10, status_results = trades0\<rparr> of None \<Rightarrow> True
      | Some st \<Rightarrow> contains (status_results st) ''trades''"
    by simp
  have "contains (results long_100_at_10) ''trades''"
    using trades_key_is_kept [OF seeded', of "''ASSET''" True "[]" long_100_at_10]
    by (simp add: long_100_at_10_def)
  with trades_key_is_kept [OF fresh run] run seeded show ?thesis by blast
qed

text \<open>
  The counterexample to C8 as stated: seeded with empty results, the accumulator has
  no \<^verbatim>\<open>trades\<close> key right after construction.
\<close>

theorem seeded_results_lack_trades:
  "\<not> contains (results seeded_without_trades) ''trades''"
  by (simp add: seeded_without_trades_def init_def contains_def)

text \<open>
  C9. When the volume of the operation and the volume of the container are both
  nonzero, the proration returns the operation with, under each commission key of the
  container, the container's commission times
  \<open>(operation.volume / container.volume * 100) / 100\<close>, its other commissions left as
  they were; when either volume is zero the operation is returned as it was. No
  error occurs in either case.
\<close>

theorem prorate_by_volume:
  "(operation.volume op \<noteq> 0 \<and> container.volume cont \<noteq> 0 \<longrightarrow>
      (\<exists>op'. prorate_commissions_by_position cont op = Inr op' \<and>
         operation.volume op' = operation.volume op \<and>
         (\<forall>key. DAList.lookup (operation.commissions op') key =
            (case DAList.lookup (container.commissions cont) key of
               None \<Rightarrow> DAList.lookup (operation.commissions op) key
             | Some v \<Rightarrow>
                 Some (v * (operation.volume op / container.volume cont * 100) / 100))))) \<and>
   (operation.volume op = 0 \<or> container.volume cont = 0 \<longrightarrow>
      prorate_commissions_by_position cont op = Inr op)"
proof -
  have stored: "DAList.lookup
          (fold (\<lambda>(key, v) c. setitem c key (f v)) (items (container.commissions cont))
             (operation.commissions op)) key =
        (case DAList.lookup (container.commissions cont) key of
           None \<Rightarrow> DAList.lookup (operation.commissions op) key
         | Some v \<Rightarrow> Some (f v))" for f key
    using fold_setitem_lookup [where xs = "items (container.commissions cont)"
        and f = f and ?c0.0 = "operation.commissions op" and k = key]
    by (simp add: map_of_items distinct_items)
  show ?thesis
    by (simp add: prorate_commissions_by_position_def truediv_def Let_def stored
        split: option.split)
qed

theorem prorate_by_volume_witness:
  "operation.volume (an_operation 250) \<noteq> 0 \<and> container.volume the_container \<noteq> 0 \<and>
   (\<exists>op'. prorate_commissions_by_position the_container (an_operation 250) = Inr op' \<and>
      DAList.lookup (operation.commissions op') ''brokerage'' = Some 5 \<and>
      DAList.lookup (operation.commissions op') ''tax'' = Some (5 / 4)) \<and>
   operation.volume (an_operation 0) = 0 \<and>
   prorate_commissions_by_position the_container (an_operation 0) = Inr (an_operation 0)"
proof -
  have nz: "operation.volume (an_operation 250) \<noteq> 0 \<and> container.volume the_container \<noteq> 0"
    by (simp add: an_operation_def the_container_def)
  have z: "operation.volume (an_operation 0) = 0 \<or> container.volume the_container = 0"
    by (simp add: an_operation_def)
  from prorate_by_volume [of "an_operation 250" the_container, THEN conjunct1, rule_format, OF nz]
  obtain op' where op': "prorate_commissions_by_position the_container (an_operation 250) = Inr op'"
    and c: "\<forall>key. DAList.lookup (operation.commissions op') key =
            (case DAList.lookup (container.commissions the_container) key of
               None \<Rightarrow> DAList.lookup (operation.commissions (an_operation 250)) key
             | Some v \<Rightarrow>
                 Some (v * (operation.volume (an_operation 250) /
                   container.volume the_container * 100) / 100))"
    by blast
  have "DAList.lookup (operation.commissions op') ''brokerage'' = Some 5"
    using c [rule_format, of "''brokerage''"]
    by (simp add: the_container_def an_operation_def lookup_setitem)
  moreover have "DAList.lookup (operation.commissions op') ''tax'' = Some (5 / 4)"
    using c [rule_format, of "''tax''"]
    by (simp add: the_container_def an_operation_def lookup_setitem)
  moreover have "prorate_commissions_by_position the_container (an_operation 0) =
      Inr (an_operation 0)"
    using prorate_by_volume [of "an_operation 0" the_container, THEN conjunct2, rule_format, OF z] .
  ultimately show ?thesis using nz op' by (auto simp: an_operation_def)
qed



end
